theory Spec2Isabelle
  imports Main "HOL-Library.Sublist" "HOL-Library.AList"
begin

section \<open>gpubsub: rule-tree evaluation and command dispatch\<close>

text \<open>
  A shallow embedding of \<^verbatim>\<open>service.go\<close> (subData.receiveMessage, subIf.eval,
  subCommand.empty, subCommand.perform), \<^verbatim>\<open>config.go\<close> (parseSubsConfig,
  validateSubsConfigIfs) and of onStart in the main file. Go strings and byte slices
  are both byte sequences: \<open>string\<close> (a \<open>char\<close> is one byte), and \<open>len\<close> is
  \<open>length\<close>. A Go map with string keys is an association list with \<open>map_of\<close>
  as lookup; the order in which \<^verbatim>\<open>range\<close> walks a map is left open by Go and is an
  oracle of the environment here.
\<close>

type_synonym bytes = string

subsection \<open>Library functions on strings\<close>

text \<open>
  Modelled from the spec: \<^verbatim>\<open>strings.TrimSpace\<close> (Go's library, not part of the
  repository's sources) removes "all leading and trailing white space, as defined by
  Unicode"; the spec speaks of a "whitespace-only first element". \<open>spaces\<close> lists the
  UTF-8 encodings of the code points with the White_Space property: U+0009 to U+000D,
  U+0020, U+0085, U+00A0, U+1680, U+2000 to U+200A, U+2028, U+2029, U+202F, U+205F
  and U+3000.
\<close>

definition spaces :: "string list" where
  "spaces =
     [[CHR 0x09], [CHR 0x0A], [CHR 0x0B], [CHR 0x0C], [CHR 0x0D], [CHR 0x20],
      [CHR 0xC2, CHR 0x85], [CHR 0xC2, CHR 0xA0], [CHR 0xE1, CHR 0x9A, CHR 0x80],
      [CHR 0xE2, CHR 0x80, CHR 0x80], [CHR 0xE2, CHR 0x80, CHR 0x81],
      [CHR 0xE2, CHR 0x80, CHR 0x82], [CHR 0xE2, CHR 0x80, CHR 0x83],
      [CHR 0xE2, CHR 0x80, CHR 0x84], [CHR 0xE2, CHR 0x80, CHR 0x85],
      [CHR 0xE2, CHR 0x80, CHR 0x86], [CHR 0xE2, CHR 0x80, CHR 0x87],
      [CHR 0xE2, CHR 0x80, CHR 0x88], [CHR 0xE2, CHR 0x80, CHR 0x89],
      [CHR 0xE2, CHR 0x80, CHR 0x8A], [CHR 0xE2, CHR 0x80, CHR 0xA8],
      [CHR 0xE2, CHR 0x80, CHR 0xA9], [CHR 0xE2, CHR 0x80, CHR 0xAF],
      [CHR 0xE2, CHR 0x81, CHR 0x9F], [CHR 0xE3, CHR 0x80, CHR 0x80]]"

function trimPrefixes :: "string list \<Rightarrow> string \<Rightarrow> string" where
  "trimPrefixes ws s =
     (case List.find (\<lambda>w. w \<noteq> [] \<and> prefix w s) ws of
        None \<Rightarrow> s
      | Some w \<Rightarrow> trimPrefixes ws (drop (length w) s))"
  by pat_completeness auto
termination
proof (relation "measure (\<lambda>(ws, s). length s)")
  show "wf (measure (\<lambda>(ws, s). length s))" by simp
next
  fix ws :: "string list" and s w :: string
  assume "List.find (\<lambda>w. w \<noteq> [] \<and> prefix w s) ws = Some w"
  then have "w \<noteq> []" and "prefix w s" by (auto simp: find_Some_iff)
  then have "length s - length w < length s" by (cases w) (auto dest: prefix_length_le)
  then show "((ws, drop (length w) s), (ws, s)) \<in> measure (\<lambda>(ws, s). length s)" by simp
qed

declare trimPrefixes.simps [simp del]

definition TrimSpace :: "string \<Rightarrow> string" where
  "TrimSpace s = rev (trimPrefixes (map rev spaces) (rev (trimPrefixes spaces s)))"

text \<open>
  Modelled from the spec: \<^verbatim>\<open>strings.ReplaceAll(s, " ", "_")\<close>, the one use of
  ReplaceAll ("spaces replaced with underscores"): old and new are one byte each.
\<close>

definition ReplaceAll :: "string \<Rightarrow> char \<Rightarrow> char \<Rightarrow> string" where
  "ReplaceAll s old new = map (\<lambda>c. if c = old then new else c) s"

text \<open>
  Modelled from the spec: \<^verbatim>\<open>strings.NewReplacer(oldnew...).Replace(s)\<close>, the
  "placeholder substitution" of the spec (Go's library, not part of the repository's
  sources). Go documents: "Replacements are performed in the order they appear in the
  target string, without overlapping matches. The old string comparisons are done in
  argument order." At each position the first pair, in argument order, whose old string
  is a prefix of the rest of the text is replaced, and the scan goes on behind it; an
  empty old string matches at every position, once. \<open>pairs\<close> reads the flat argument
  list two by two (NewReplacer panics on an odd count, which perform never passes).
\<close>

fun pairs :: "string list \<Rightarrow> (string \<times> string) list" where
  "pairs (old # new # r) = (old, new) # pairs r"
| "pairs _ = []"

definition lookup :: "(string \<times> string) list \<Rightarrow> string \<Rightarrow> bool \<Rightarrow> (string \<times> string) option" where
  "lookup prs s ignoreRoot =
     List.find (\<lambda>(old, new). prefix old s \<and> \<not> (ignoreRoot \<and> old = [])) prs"

function replaceFrom :: "(string \<times> string) list \<Rightarrow> string \<Rightarrow> bool \<Rightarrow> string" where
  "replaceFrom prs s prevMatchEmpty =
     (case lookup prs s prevMatchEmpty of
        Some (old, new) \<Rightarrow> new @ replaceFrom prs (drop (length old) s) (old = [])
      | None \<Rightarrow> (case s of [] \<Rightarrow> [] | c # cs \<Rightarrow> c # replaceFrom prs cs False))"
  by pat_completeness auto
termination
proof (relation "measure (\<lambda>(prs, s, e). 2 * length s + (if e then 0 else 1))")
  show "wf (measure (\<lambda>(prs, s, e). 2 * length s + (if e then 0 else 1)))" by simp
next
  fix prs :: "(string \<times> string) list" and s old new :: string and e :: bool and x
  assume "lookup prs s e = Some x" and "(old, new) = x"
  then have f: "List.find (\<lambda>(old, new). prefix old s \<and> \<not> (e \<and> old = [])) prs = Some (old, new)"
    by (simp add: lookup_def)
  then have p: "prefix old s" and ne: "\<not> (e \<and> old = [])" by (auto simp: find_Some_iff)
  from p have "old \<noteq> [] \<Longrightarrow> Suc (2 * (length s - length old)) < 2 * length s"
    by (cases old) (auto dest: prefix_length_le)
  then show "((prs, drop (length old) s, old = []), (prs, s, e))
      \<in> measure (\<lambda>(prs, s, e). 2 * length s + (if e then 0 else 1))"
    using ne by (cases "old = []") auto
next
  fix prs :: "(string \<times> string) list" and s cs :: string and e :: bool and c
  assume "s = c # cs"
  then show "((prs, cs, False), (prs, s, e))
      \<in> measure (\<lambda>(prs, s, e). 2 * length s + (if e then 0 else 1))" by simp
qed

declare replaceFrom.simps [simp del]

definition Replace :: "string list \<Rightarrow> string \<Rightarrow> string" where
  "Replace oldnew s = replaceFrom (pairs oldnew) s False"

subsection \<open>Base64\<close>

text \<open>
  Modelled from the spec: \<^verbatim>\<open>base64.StdEncoding\<close> of Go's \<^verbatim>\<open>encoding/base64\<close> (a
  library, not part of the repository's sources), "the standard base64 encoding" of
  the spec: RFC 4648 with the alphabet \<open>encodeStd\<close> and \<^verbatim>\<open>=\<close> padding. EncodeToString
  packs three bytes into four characters. DecodeString ignores \<^verbatim>\<open>\r\<close> and \<^verbatim>\<open>\n\<close>,
  wants whole, padded quanta of the alphabet, and does not check the unused bits of the
  last quantum; \<open>None\<close> is a non-nil error.
\<close>

definition encodeStd :: string where
  "encodeStd = ''ABCDEFGHIJKLMNOPQRSTUVWXYZabcdefghijklmnopqrstuvwxyz0123456789+/''"

fun EncodeToString :: "bytes \<Rightarrow> string" where
  "EncodeToString (a # b # c # r) =
     (let val = of_char a * 65536 + of_char b * 256 + of_char c
      in [encodeStd ! (val div 262144 mod 64), encodeStd ! (val div 4096 mod 64),
          encodeStd ! (val div 64 mod 64), encodeStd ! (val mod 64)] @ EncodeToString r)"
| "EncodeToString [a, b] =
     (let val = of_char a * 65536 + of_char b * 256
      in [encodeStd ! (val div 262144 mod 64), encodeStd ! (val div 4096 mod 64),
          encodeStd ! (val div 64 mod 64), CHR ''=''])"
| "EncodeToString [a] =
     (let val = of_char a * 65536
      in [encodeStd ! (val div 262144 mod 64), encodeStd ! (val div 4096 mod 64),
          CHR ''='', CHR ''=''])"
| "EncodeToString [] = []"

definition decodeMap :: "char \<Rightarrow> nat option" where
  "decodeMap c = map_of (zip encodeStd [0..<64]) c"

definition decodeQuantum :: "char \<Rightarrow> char \<Rightarrow> char \<Rightarrow> char \<Rightarrow> bool \<Rightarrow> bytes option" where
  "decodeQuantum a b c d final =
     (case (decodeMap a, decodeMap b) of
        (Some x, Some y) \<Rightarrow>
          (if final \<and> c = CHR ''='' \<and> d = CHR ''='' then
             Some [char_of ((x * 262144 + y * 4096) div 65536)]
           else
             (case decodeMap c of
                None \<Rightarrow> None
              | Some z \<Rightarrow>
                  (if final \<and> d = CHR ''='' then
                     (let val = x * 262144 + y * 4096 + z * 64
                      in Some [char_of (val div 65536), char_of (val div 256)])
                   else
                     (case decodeMap d of
                        None \<Rightarrow> None
                      | Some w \<Rightarrow>
                          (let val = x * 262144 + y * 4096 + z * 64 + w
                           in Some [char_of (val div 65536), char_of (val div 256),
                                    char_of val])))))
      | _ \<Rightarrow> None)"

fun decodeQuanta :: "string \<Rightarrow> bytes option" where
  "decodeQuanta [] = Some []"
| "decodeQuanta (a # b # c # d # r) =
     (case decodeQuantum a b c d (r = []) of
        None \<Rightarrow> None
      | Some bs \<Rightarrow> (case decodeQuanta r of None \<Rightarrow> None | Some rest \<Rightarrow> Some (bs @ rest)))"
| "decodeQuanta _ = None"

definition DecodeString :: "string \<Rightarrow> bytes option" where
  "DecodeString s = decodeQuanta (filter (\<lambda>c. c \<noteq> CHR 0x0A \<and> c \<noteq> CHR 0x0D) s)"

subsection \<open>Compiled patterns\<close>

text \<open>
  Modelled from the spec: Go's \<^verbatim>\<open>regexp\<close> package (\<^verbatim>\<open>*regexp.Regexp\<close> and its
  method MatchString) is a library and not part of the repository's sources. The spec
  (4.1, step 2) says that a node's compiled pattern is tested with "unanchored
  substring search semantics (not full-string match)", and Go documents MatchString
  as reporting "whether the string s contains any match of the regular expression".
  A compiled pattern is modelled as the syntax tree of a fragment of RE2: a literal
  byte, \<^verbatim>\<open>.\<close> (one character other than newline, a character being one byte, as on
  ASCII text), \<^verbatim>\<open>^\<close> and \<^verbatim>\<open>$\<close> (begin and end of the text: no multi-line flag), the
  empty pattern, concatenation, alternation and \<^verbatim>\<open>*\<close>.

  \<open>ends re s i\<close> lists the positions \<open>j\<close> such that \<open>re\<close> matches the text \<open>s\<close>
  from position \<open>i\<close> to position \<open>j\<close>; the anchors look at the whole text \<open>s\<close>.
\<close>

datatype regexp =
    Lit char
  | AnyChar
  | BeginText
  | EndText
  | EmptyMatch
  | Cat regexp regexp
  | Alt regexp regexp
  | Star regexp

fun closure :: "(nat \<Rightarrow> nat list) \<Rightarrow> nat \<Rightarrow> nat list \<Rightarrow> nat list" where
  "closure step 0 ps = ps"
| "closure step (Suc k) ps = closure step k (remdups (ps @ concat (map step ps)))"

fun ends :: "regexp \<Rightarrow> string \<Rightarrow> nat \<Rightarrow> nat list" where
  "ends (Lit c) s i = (if i < length s \<and> s ! i = c then [Suc i] else [])"
| "ends AnyChar s i = (if i < length s \<and> s ! i \<noteq> CHR 0x0A then [Suc i] else [])"
| "ends BeginText s i = (if i = 0 then [i] else [])"
| "ends EndText s i = (if i = length s then [i] else [])"
| "ends EmptyMatch s i = [i]"
| "ends (Cat a b) s i = concat (map (ends b s) (ends a s i))"
| "ends (Alt a b) s i = ends a s i @ ends b s i"
| "ends (Star a) s i = closure (ends a s) (Suc (length s)) [i]"

text \<open>
  Modelled from the spec: \<^verbatim>\<open>(*regexp.Regexp).MatchString\<close>, the search: the pattern
  matches somewhere in the text, from any start position.
\<close>

definition MatchString :: "regexp \<Rightarrow> string \<Rightarrow> bool" where
  "MatchString re s = list_ex (\<lambda>i. ends re s i \<noteq> []) [0..<Suc (length s)]"

subsection \<open>The data of service.go\<close>

datatype dataVia = dataViaNone | dataViaPipe | dataViaFile | dataViaVar

datatype subIfField = subIfFieldNone | subIfFieldMetaKey

type_synonym subCommand = "string list"

text \<open>
  \<^verbatim>\<open>type subIf struct\<close>. \<open>Pattern\<close> is a pointer in Go: \<open>None\<close> is nil, which
  validateSubsConfigIfs stores when the pattern does not compile.
\<close>

datatype subIf =
  SubIf (FieldType: subIfField) (FieldName: string) (Pattern: "regexp option")
        (Command: subCommand) (Then: "subIf list")

text \<open>
  \<^verbatim>\<open>pubsub.Message\<close>: the fields the program reads. PublishTime is written by
  parseSubsConfig (the clock) and never read.
\<close>

record Message =
  ID :: string
  Data :: bytes
  Attributes :: "(string \<times> string) list"

text \<open>The Go index expression \<^verbatim>\<open>m[k]\<close> on a map of strings: the empty string for a missing key.\<close>

definition mapIndex :: "(string \<times> string) list \<Rightarrow> string \<Rightarrow> string" where
  "mapIndex m k = (case map_of m k of None \<Rightarrow> [] | Some v \<Rightarrow> v)"

subsection \<open>subIf.eval\<close>

text \<open>
  \<^verbatim>\<open>func (iff *subIf) eval(msg, index, cbk)\<close>. The callback only acts on the outside
  world and eval reads nothing back from it, so eval is modelled by the sequence of what
  it does: \<open>Call node index\<close> is one invocation \<^verbatim>\<open>cbk(iff, index)\<close>, and \<open>Enter index\<close>
  records that eval was entered for the node at \<open>index\<close> (the node is evaluated).
  The second component is True when eval panics: MatchString on a nil Pattern
  dereferences nil. A panic ends the loops of all callers. When a callback does not
  come back, what happens is this sequence up to that \<open>Call\<close>: \<open>dispatch\<close> below
  performs the calls one after the other and stops there.
\<close>

datatype visit = Enter "nat list" | Call subIf "nat list"

fun eval :: "Message \<Rightarrow> nat list \<Rightarrow> subIf \<Rightarrow> visit list \<times> bool"
  and evalThen :: "Message \<Rightarrow> nat list \<Rightarrow> nat \<Rightarrow> subIf list \<Rightarrow> visit list \<times> bool" where
  "eval msg index (SubIf ft fn pat cmd thn) =
     (case ft of
        subIfFieldMetaKey \<Rightarrow>
          (case pat of
             None \<Rightarrow> ([Enter index], True)
           | Some re \<Rightarrow>
               if \<not> MatchString re (mapIndex (Attributes msg) fn) then ([Enter index], False)
               else
                 let (t, panicked) = evalThen msg index 0 thn
                 in (Enter index # Call (SubIf ft fn pat cmd thn) index # t, panicked))
      | subIfFieldNone \<Rightarrow> ([Enter index], False))"
| "evalThen msg index i [] = ([], False)"
| "evalThen msg index i (v # vs) =
     (case eval msg (index @ [i]) v of
        (t, True) \<Rightarrow> (t, True)
      | (t, False) \<Rightarrow>
          let (t', panicked) = evalThen msg index (Suc i) vs in (t @ t', panicked))"

subsection \<open>The environment of one message\<close>

text \<open>
  What the program asks of its surroundings while it handles one message: the file
  system, the processes it starts and the order of \<^verbatim>\<open>range\<close> over a map. Each field
  answers one library call of the source; theorems hold for every environment.
  Go fixes the order of every \<^verbatim>\<open>range\<close> anew and every process is its own, so the
  answers that belong to a call of perform take the number of that call: \<open>k\<close> is the
  number of calls of perform the message has seen before. \<open>rangeAttributes\<close> is
  the order of the one \<^verbatim>\<open>range msg.Attributes\<close>. A \<^verbatim>\<open>range\<close> may return any
  arrangement of the entries of the map.

  A write to the pipe returns, returns an error, or blocks: perform writes before the
  process is started, so nobody reads the pipe yet. CombinedOutput returns with a nil
  error, with an error, or does not return: the process does not exit. This is also
  what happens when the process reads its standard input to the end, since perform
  closes the pipe only by \<^verbatim>\<open>defer stdin.Close()\<close>, after CombinedOutput.
\<close>

datatype writeResult = Written | WriteError | WriteBlocks

datatype runResult = Succeeded | Failed | NeverExits

record env =
  os_TempDir :: string
  path_Join :: "string \<Rightarrow> string \<Rightarrow> string"
  ioutil_WriteFile :: "string \<Rightarrow> bytes \<Rightarrow> bool"
  rangeAttributes :: "(string \<times> string) list \<Rightarrow> (string \<times> string) list"
  rangeReplaces :: "nat \<Rightarrow> (string \<times> string) list \<Rightarrow> (string \<times> string) list"
  StdinPipe :: "nat \<Rightarrow> string \<Rightarrow> string list \<Rightarrow> bool"
  stdin_Write :: "nat \<Rightarrow> string \<Rightarrow> string list \<Rightarrow> bytes \<Rightarrow> writeResult"
  CombinedOutput :: "nat \<Rightarrow> string \<Rightarrow> string list \<Rightarrow> bytes option \<Rightarrow> runResult"

text \<open>
  What the program does to its surroundings. \<open>Ran cmd args input r\<close>: the command
  was started by CombinedOutput with the standard input \<open>input\<close>, and \<open>r\<close> came of it.
\<close>

datatype event =
    WroteFile string bytes
  | WriteFileFailed string
  | RemovedFile string
  | OpenPipeFailed string "string list"
  | WritePipeFailed string "string list"
  | WritePipeBlocked string "string list"
  | Ran string "string list" "bytes option" runResult
  | NewClient
  | Exists string
  | Config string
  | Receive string
  | Ack string
  | Nack string

subsection \<open>subCommand.empty and subCommand.perform\<close>

definition empty :: "subCommand \<Rightarrow> bool" where
  "empty sc = (case sc of [] \<Rightarrow> True | c # _ \<Rightarrow> TrimSpace c = [])"

text \<open>
  \<^verbatim>\<open>func (sc subCommand) perform(replaces, passViaPipe, log) bool\<close>, as call number
  \<open>k\<close> of the message, in three parts. \<open>cmdArgs\<close> is the block "command and args":
  \<open>arr\<close> is made with \<^verbatim>\<open>2*len(replaces)\<close> empty strings in front (\<^verbatim>\<open>make\<close> with a
  length, then \<^verbatim>\<open>append\<close>). \<open>run\<close> is the block "perform": CombinedOutput and the
  \<^verbatim>\<open>return true\<close> behind it. The result of perform is \<open>Some b\<close> when it returns \<open>b\<close>
  and \<open>None\<close> when it does not return, with what was done.
\<close>

definition cmdArgs :: "env \<Rightarrow> nat \<Rightarrow> subCommand \<Rightarrow> (string \<times> string) list \<Rightarrow> string list" where
  "cmdArgs e k sc replaces =
     (if length sc - 1 > 0 then
        let arr = replicate (2 * length replaces) []
                  @ concat (map (\<lambda>(key, v). [key, v]) (rangeReplaces e k replaces))
        in map (Replace arr) (tl sc)
      else [])"

definition run :: "env \<Rightarrow> nat \<Rightarrow> string \<Rightarrow> string list \<Rightarrow> bytes option \<Rightarrow> bool option \<times> event list" where
  "run e k cmd args input =
     (case CombinedOutput e k cmd args input of
        NeverExits \<Rightarrow> (None, [Ran cmd args input NeverExits])
      | Failed \<Rightarrow> (Some True, [Ran cmd args input Failed])
      | Succeeded \<Rightarrow> (Some True, [Ran cmd args input Succeeded]))"

definition perform :: "env \<Rightarrow> nat \<Rightarrow> subCommand \<Rightarrow> (string \<times> string) list \<Rightarrow> bytes
    \<Rightarrow> bool option \<times> event list" where
  "perform e k sc replaces passViaPipe =
     (if empty sc then (Some True, [])
      else
        let cmd = TrimSpace (hd sc);
            args = cmdArgs e k sc replaces
        in
          if length passViaPipe > 0 then
            (if \<not> StdinPipe e k cmd args then (Some False, [OpenPipeFailed cmd args])
             else
               case stdin_Write e k cmd args (EncodeToString passViaPipe) of
                 WriteError \<Rightarrow> (Some False, [WritePipeFailed cmd args])
               | WriteBlocks \<Rightarrow> (None, [WritePipeBlocked cmd args])
               | Written \<Rightarrow> run e k cmd args (Some (EncodeToString passViaPipe)))
          else run e k cmd args None)"

text \<open>
  Calls of perform one after the other, numbered from \<open>k\<close>: the next call is made
  when the one before has returned, whatever it returned. The bool says that all of
  them returned.
\<close>

fun performAll :: "env \<Rightarrow> nat \<Rightarrow> subCommand list \<Rightarrow> (string \<times> string) list \<Rightarrow> bytes
    \<Rightarrow> event list \<times> bool" where
  "performAll e k [] replaces passViaPipe = ([], True)"
| "performAll e k (sc # rest) replaces passViaPipe =
     (case perform e k sc replaces passViaPipe of
        (None, evs) \<Rightarrow> (evs, False)
      | (Some r, evs) \<Rightarrow>
          let (evs', returned) = performAll e (Suc k) rest replaces passViaPipe
          in (evs @ evs', returned))"

subsection \<open>subData.receiveMessage\<close>

record subDataTest =
  tData :: string
  Meta :: "(string \<times> string) list"
  tMessage :: "Message option"

text \<open>\<^verbatim>\<open>type subData struct\<close>, without Cancellation (the context's cancel function).\<close>

record subData =
  Sub :: string
  Topic :: string
  sdCommand :: subCommand
  PassDataVia :: dataVia
  Ifs :: "subIf list"
  Tests :: "subDataTest list"

text \<open>
  The first half of receiveMessage computes three variables: \<open>dataFile\<close>,
  \<open>commandReplaces\<close> (as it stands when the commands are performed: the subscription,
  the topic, one entry for each attribute, and GSUB_DATA in the modes file and var) and
  \<open>passBytesViaPipe\<close>.
\<close>

definition dataFile :: "env \<Rightarrow> Message \<Rightarrow> string" where
  "dataFile e msg = path_Join e (os_TempDir e) (''gpubsub_message_'' @ ID msg)"

definition commandReplaces :: "env \<Rightarrow> subData \<Rightarrow> Message \<Rightarrow> (string \<times> string) list" where
  "commandReplaces e sd msg =
     (let replaces0 =
            fold (\<lambda>(metak, metav).
                    AList.update (''GSUB_META_'' @ ReplaceAll metak (CHR '' '') (CHR ''_'')) metav)
              (rangeAttributes e (Attributes msg))
              (AList.update ''GSUB_TOPIC'' (Topic sd) (AList.update ''GSUB_SUB'' (Sub sd) []));
          replaces1 = (if PassDataVia sd = dataViaFile
                       then AList.update ''GSUB_DATA'' (dataFile e msg) replaces0 else replaces0)
      in if PassDataVia sd = dataViaVar
         then AList.update ''GSUB_DATA'' (EncodeToString (Data msg)) replaces1 else replaces1)"

definition passBytesViaPipe :: "subData \<Rightarrow> Message \<Rightarrow> bytes" where
  "passBytesViaPipe sd msg = (if PassDataVia sd = dataViaPipe then Data msg else [])"

definition calls :: "visit list \<Rightarrow> (subIf \<times> nat list) list" where
  "calls t = concat (map (\<lambda>v. case v of Call node index \<Rightarrow> [(node, index)] | Enter index \<Rightarrow> []) t)"

text \<open>How a function of the program ends: it returns a value, panics, or does not return.\<close>

datatype 'a outcome = Returns 'a | Panics | Blocks

text \<open>
  The second half of receiveMessage with its \<^verbatim>\<open>return true\<close>: the root command when
  it is not empty, then the loop over \<open>sd.Ifs\<close>, each \<^verbatim>\<open>iff.eval(msg, []int{i}, cbk)\<close>
  with the callback that performs the node's command. What perform returns is dropped,
  as in the source; a perform that does not return is the end of it.
\<close>

definition dispatch :: "env \<Rightarrow> subData \<Rightarrow> Message \<Rightarrow> event list \<times> bool outcome" where
  "dispatch e sd msg =
     (let root = (if \<not> empty (sdCommand sd) then [sdCommand sd] else []);
          (t, panicked) = (if length (Ifs sd) > 0 then evalThen msg [] 0 (Ifs sd) else ([], False));
          (evs, returned) =
            performAll e 0 (root @ map (\<lambda>(node, index). Command node) (calls t))
              (commandReplaces e sd msg) (passBytesViaPipe sd msg)
      in (evs, if \<not> returned then Blocks else if panicked then Panics else Returns True))"

text \<open>
  \<^verbatim>\<open>func (sd *subData) receiveMessage(ctx, msg, log) bool\<close>. In the mode file the data
  file is written first, and a failure returns false at once; the deferred removal of
  the data file runs when the function returns or panics.
\<close>

definition receiveMessage :: "env \<Rightarrow> subData \<Rightarrow> Message \<Rightarrow> bool outcome \<times> event list" where
  "receiveMessage e sd msg =
     (if PassDataVia sd = dataViaFile \<and> \<not> ioutil_WriteFile e (dataFile e msg) (Data msg)
      then (Returns False, [WriteFileFailed (dataFile e msg)])
      else
        let (evs, out) = dispatch e sd msg
        in (out,
            (if PassDataVia sd = dataViaFile then [WroteFile (dataFile e msg) (Data msg)] else [])
            @ evs
            @ (if PassDataVia sd = dataViaFile \<and> out \<noteq> Blocks
               then [RemovedFile (dataFile e msg)] else [])))"


subsection \<open>config.go\<close>

text \<open>
  \<^verbatim>\<open>type ifConfig struct\<close> and \<^verbatim>\<open>type subsConfig struct\<close>, as yaml.Unmarshal fills
  them: \<open>subConfig\<close> is the element type of \<^verbatim>\<open>Subscriptions\<close>. The elements of the
  pointer slices (\<^verbatim>\<open>[]*ifConfig\<close>, \<^verbatim>\<open>[]*subDataTest\<close>) are taken to be non-nil.
\<close>

datatype ifConfig =
  IfConfig (MetaKey: string) (Equal: string) (iCommand: "string list") (iThen: "ifConfig list")

record subConfig =
  Name :: string
  Disable :: bool
  cCommand :: "string list"
  DataVia :: string
  cIfs :: "ifConfig list"
  cTests :: "subDataTest list"

record subsConfig =
  ProjectID :: string
  Subscriptions :: "subConfig list"

text \<open>
  What onStart and parseSubsConfig ask of their surroundings. \<open>yaml_Unmarshal\<close> gives
  the error text or the decoded document; \<open>regexp_Compile\<close> gives \<open>None\<close> for a
  pattern that does not compile; \<open>GOOS\<close> is \<^verbatim>\<open>runtime.GOOS\<close>; \<open>sub_Exists\<close> and
  \<open>sub_Config\<close> give \<open>None\<close> for an error, \<open>sub_Config\<close> otherwise the topic's ID;
  \<open>rangeSubz\<close> is the order of \<^verbatim>\<open>range subz\<close>, for the first loop of onStart over
  it (0) and for the second (1).
\<close>

record startup =
  argSubscriptions :: string
  argClientCreds :: string
  ioutil_ReadFile :: "string \<Rightarrow> bytes option"
  yaml_Unmarshal :: "bytes \<Rightarrow> string + subsConfig"
  regexp_Compile :: "string \<Rightarrow> regexp option"
  GOOS :: string
  pubsub_NewClient :: bool
  sub_Exists :: "string \<Rightarrow> bool option"
  sub_Config :: "string \<Rightarrow> string option"
  rangeSubz :: "nat \<Rightarrow> (string \<times> subData) list \<Rightarrow> (string \<times> subData) list"

text \<open>
  \<^verbatim>\<open>func validateSubsConfigIfs(v *ifConfig, index []int) (iff *subIf, gut bool)\<close>.
  The index is only written to the log and is left out. \<open>validateThen\<close> is the loop
  over \<^verbatim>\<open>v.Then\<close>.
\<close>

fun validateSubsConfigIfs :: "startup \<Rightarrow> ifConfig \<Rightarrow> subIf \<times> bool"
  and validateThen :: "startup \<Rightarrow> ifConfig list \<Rightarrow> subIf list \<times> bool" where
  "validateSubsConfigIfs st (IfConfig mk eq cmd thn) =
     (let (fieldType, fieldName, gut1) =
            (if mk \<noteq> [] then (subIfFieldMetaKey, mk, True) else (subIfFieldNone, [], False));
          gut2 = (if eq = [] then False else gut1);
          rex = regexp_Compile st eq;
          gut3 = (if rex = None then False else gut2);
          (thens, good) = validateThen st thn
      in (SubIf fieldType fieldName rex cmd thens, gut3 \<and> good))"
| "validateThen st [] = ([], True)"
| "validateThen st (t # ts) =
     (let (subIff, good) = validateSubsConfigIfs st t;
          (rest, gut) = validateThen st ts
      in (subIff # rest, good \<and> gut))"

text \<open>\<^verbatim>\<open>fmt.Sprintf("%v", testi)\<close> for an index: decimal digits.\<close>

fun itoa :: "nat \<Rightarrow> string" where
  "itoa n = (if n < 10 then [''0123456789'' ! n]
             else itoa (n div 10) @ [''0123456789'' ! (n mod 10)])"

declare itoa.simps [simp del]

text \<open>The body of the loop over \<^verbatim>\<open>v.Tests\<close>: the message of one test.\<close>

definition testMessage :: "string \<Rightarrow> nat \<Rightarrow> subDataTest \<Rightarrow> subDataTest" where
  "testMessage name testi test =
     test\<lparr>tMessage := Some \<lparr>
       ID = name @ ''_test_'' @ itoa testi,
       Data = (case DecodeString (tData test) of Some b \<Rightarrow> b | None \<Rightarrow> tData test),
       Attributes = Meta test\<rparr>\<rparr>"

text \<open>
  \<^verbatim>\<open>func parseSubsConfig(b []byte) (project, subz, hasTests, err)\<close>. \<open>Parsed\<close> holds
  the four results as they stand at the return (\<open>None\<close> is a nil err); \<open>PFatal\<close> is
  \<^verbatim>\<open>log.Fatal\<close>, which ends the process. \<open>subsLoop\<close> is the loop over
  \<^verbatim>\<open>cfg.Subscriptions\<close> with the check behind it, and \<open>subsBody\<close> the body of the
  loop for one element: \<open>Inl\<close> leaves the function, \<open>Inr\<close> goes on with the next
  element (\<^verbatim>\<open>continue\<close>, or the end of the body).
\<close>

datatype parsed = PFatal | Parsed string "(string \<times> subData) list" bool "string option"

definition subsBody :: "startup \<Rightarrow> string \<Rightarrow> subConfig \<Rightarrow> (string \<times> subData) list \<Rightarrow> bool
    \<Rightarrow> parsed + (string \<times> subData) list \<times> bool" where
  "subsBody st project v subz hasTests =
     (if Disable v then Inr (subz, hasTests)
      else
        let name = TrimSpace (Name v) in
        if length name < 3 \<or> length name > 255
        then Inl (Parsed project subz hasTests (Some (''invalid subscription name: '' @ name)))
        else
          let passDataVia =
                (if DataVia v = [] \<or> DataVia v = ''var'' then Some dataViaVar
                 else if DataVia v = ''pipe''
                   then Some (if GOOS st = ''windows'' then dataViaVar else dataViaPipe)
                 else if DataVia v = ''file'' then Some dataViaFile
                 else if DataVia v = ''none'' then Some dataViaNone
                 else None)
          in
          if passDataVia = None
          then Inl (Parsed project subz hasTests
                      (Some (''invalid data passing method: '' @ DataVia v)))
          else
            let (ifs, ok) = validateThen st (cIfs v) in
            if \<not> ok then Inl PFatal
            else
              let hasTests' = (if length (cTests v) > 0 then True else hasTests);
                  tests = (if length (cTests v) > 0
                           then map (\<lambda>(testi, test). testMessage name testi test)
                                  (enumerate 0 (cTests v))
                           else cTests v)
              in
              if map_of subz name \<noteq> None
              then Inl (Parsed project subz hasTests'
                          (Some (''duplicate subscription: '' @ name)))
              else
                Inr (AList.update name
                       \<lparr>Sub = name, Topic = [], sdCommand = cCommand v,
                        PassDataVia = the passDataVia, Ifs = ifs, Tests = tests\<rparr> subz,
                     hasTests'))"

fun subsLoop :: "startup \<Rightarrow> string \<Rightarrow> subConfig list \<Rightarrow> (string \<times> subData) list \<Rightarrow> bool \<Rightarrow> parsed" where
  "subsLoop st project [] subz hasTests =
     (if length subz = 0 then Parsed project subz hasTests (Some ''empty subscriptions list'')
      else Parsed project subz hasTests None)"
| "subsLoop st project (v # vs) subz hasTests =
     (case subsBody st project v subz hasTests of
        Inl returned \<Rightarrow> returned
      | Inr (subz', hasTests') \<Rightarrow> subsLoop st project vs subz' hasTests')"

definition parseSubsConfig :: "startup \<Rightarrow> bytes \<Rightarrow> parsed" where
  "parseSubsConfig st b =
     (case yaml_Unmarshal st b of
        Inl err \<Rightarrow> Parsed [] [] False (Some (''failed to unmarshal yaml: '' @ err))
      | Inr cfg \<Rightarrow> subsLoop st (ProjectID cfg) (Subscriptions cfg) [] False)"

subsection \<open>onStart\<close>

text \<open>
  How onStart ends: \<open>Fatal\<close> is \<^verbatim>\<open>log.Fatal\<close>, \<open>Panic\<close> a run-time panic,
  \<open>Stopped\<close> the return after \<^verbatim>\<open>wg.Wait()\<close> when no listener was started,
  \<open>Serving\<close> stands for \<^verbatim>\<open>wg.Wait()\<close> with listeners running (what they do with a
  message is \<open>receiveCallback\<close>), and \<open>Stuck\<close> is a test message whose receiveMessage
  does not return.
\<close>

datatype exit = Fatal | Panic | Stopped | Serving | Stuck

text \<open>The loop "check subscriptions": \<open>None\<close> is \<^verbatim>\<open>log.Fatal\<close>.\<close>

fun checkSubscriptions :: "startup \<Rightarrow> (string \<times> subData) list \<Rightarrow> (string \<times> subData) list
    \<Rightarrow> (string \<times> subData) list option \<times> event list" where
  "checkSubscriptions st [] subz = (Some subz, [])"
| "checkSubscriptions st ((k, v) # rest) subz =
     (case sub_Exists st (Sub v) of
        None \<Rightarrow> (None, [Exists (Sub v)])
      | Some False \<Rightarrow> (None, [Exists (Sub v)])
      | Some True \<Rightarrow>
          (case sub_Config st (Sub v) of
             None \<Rightarrow> (None, [Exists (Sub v), Config (Sub v)])
           | Some topic \<Rightarrow>
               let (r, evs) = checkSubscriptions st rest (AList.update k (v\<lparr>Topic := topic\<rparr>) subz)
               in (r, Exists (Sub v) # Config (Sub v) # evs)))"

text \<open>
  The loop over \<^verbatim>\<open>v.Tests\<close> in testing mode. \<open>world\<close> gives the environment that the
  message with a given ID meets. The second component is \<open>None\<close> when the loop is
  through, and otherwise how it ended early: a nil \<^verbatim>\<open>test.Message\<close> or a panic of
  receiveMessage (\<open>Panic\<close>), or a receiveMessage that does not return (\<open>Stuck\<close>).
\<close>

fun runTests :: "(string \<Rightarrow> env) \<Rightarrow> subData \<Rightarrow> subDataTest list \<Rightarrow> event list \<times> exit option" where
  "runTests world v [] = ([], None)"
| "runTests world v (test # tests) =
     (case tMessage test of
        None \<Rightarrow> ([], Some Panic)
      | Some m \<Rightarrow>
          (case receiveMessage (world (ID m)) v m of
             (Panics, evs) \<Rightarrow> (evs, Some Panic)
           | (Blocks, evs) \<Rightarrow> (evs, Some Stuck)
           | (Returns r, evs) \<Rightarrow>
               let (evs', early) = runTests world v tests in (evs @ evs', early)))"

text \<open>The last loop over \<^verbatim>\<open>subz\<close>: the tests of each subscription, or its listener.\<close>

fun startAll :: "(string \<Rightarrow> env) \<Rightarrow> bool \<Rightarrow> (string \<times> subData) list \<Rightarrow> event list \<times> exit option" where
  "startAll world testing [] = ([], None)"
| "startAll world testing ((k, v) # rest) =
     (if testing then
        (case runTests world v (Tests v) of
           (evs, Some early) \<Rightarrow> (evs, Some early)
         | (evs, None) \<Rightarrow>
             let (evs', early) = startAll world testing rest in (evs @ evs', early))
      else
        let (evs', early) = startAll world testing rest in (Receive (Sub v) # evs', early))"

definition onStart :: "startup \<Rightarrow> (string \<Rightarrow> env) \<Rightarrow> exit \<times> event list" where
  "onStart st world =
     (case ioutil_ReadFile st (argSubscriptions st) of
        None \<Rightarrow> (Fatal, [])
      | Some b \<Rightarrow>
          (case parseSubsConfig st b of
             PFatal \<Rightarrow> (Fatal, [])
           | Parsed projID subzMap hasTests (Some err) \<Rightarrow> (Fatal, [])
           | Parsed projID subzMap testing None \<Rightarrow>
               if argClientCreds st \<noteq> [] \<and> ioutil_ReadFile st (argClientCreds st) = None
               then (Fatal, [])
               else if \<not> testing \<and> \<not> pubsub_NewClient st then (Fatal, [])
               else
                 let (checked, evs1) =
                       (if \<not> testing then checkSubscriptions st (rangeSubz st 0 subzMap) subzMap
                        else (Some subzMap, []))
                 in
                 (case checked of
                    None \<Rightarrow> (Fatal, (if \<not> testing then [NewClient] else []) @ evs1)
                  | Some subz \<Rightarrow>
                      let (evs2, early) = startAll world testing (rangeSubz st 1 subz)
                      in ((case early of
                             Some how \<Rightarrow> how
                           | None \<Rightarrow> if testing then Stopped else Serving),
                          (if \<not> testing then [NewClient] else []) @ evs1 @ evs2))))"

section \<open>Properties\<close>

subsection \<open>Notions the statements use\<close>

text \<open>
  A node matches a message when eval, entered for it, gets past both of its returns:
  the field is a metadata key and the pattern is found in the value of the key.
\<close>

definition nodeMatches :: "Message \<Rightarrow> subIf \<Rightarrow> bool" where
  "nodeMatches msg n =
     (FieldType n = subIfFieldMetaKey \<and>
      (case Pattern n of
         None \<Rightarrow> False
       | Some re \<Rightarrow> MatchString re (mapIndex (Attributes msg) (FieldName n))))"

text \<open>
  Every pattern of the tree compiled: no Pattern is nil. parseSubsConfig lets no other
  tree through (\<open>validateThen_compiled\<close> below).
\<close>

fun compiled :: "subIf \<Rightarrow> bool" where
  "compiled (SubIf ft fn pat cmd thn) = (pat \<noteq> None \<and> list_all compiled thn)"




subsection \<open>Scenarios of the spec\<close>

text \<open>
  The compiled form of a pattern without operators (its characters in sequence), and of
  the same between \<^verbatim>\<open>^\<close> and \<^verbatim>\<open>$\<close>.
\<close>

definition literal :: "string \<Rightarrow> regexp" where
  "literal s = foldr (\<lambda>c re. Cat (Lit c) re) s EmptyMatch"

definition anchored :: "string \<Rightarrow> regexp" where
  "anchored s = Cat BeginText (Cat (literal s) EndText)"

text \<open>
  The rule of scenario 2: server \<^verbatim>\<open>^staging$\<close>, then app \<^verbatim>\<open>^frontend$\<close> with command A
  and app \<^verbatim>\<open>^backend$\<close> with command B; and the messages of scenarios 2 and 3.
\<close>

definition stagingRule :: subIf where
  "stagingRule =
     SubIf subIfFieldMetaKey ''server'' (Some (anchored ''staging'')) [''deploy'']
       [SubIf subIfFieldMetaKey ''app'' (Some (anchored ''frontend'')) [''A''] [],
        SubIf subIfFieldMetaKey ''app'' (Some (anchored ''backend'')) [''B''] []]"

definition stagingFrontend :: Message where
  "stagingFrontend =
     \<lparr>ID = ''1'', Data = ''hello'',
      Attributes = [(''server'', ''staging''), (''app'', ''frontend'')]\<rparr>"

definition production :: Message where
  "production = \<lparr>ID = ''2'', Data = ''hello'', Attributes = [(''server'', ''production'')]\<rparr>"

text \<open>
  The order of the spec for the rules that fire: a matched node, then what fires below
  each of its children, in list order; nothing for a node that does not match.
\<close>

fun matched :: "Message \<Rightarrow> subIf \<Rightarrow> subIf list" where
  "matched msg (SubIf ft fn pat cmd thn) =
     (if nodeMatches msg (SubIf ft fn pat cmd thn)
      then SubIf ft fn pat cmd thn # concat (map (matched msg) thn)
      else [])"


text \<open>
  An environment in which every call succeeds and \<^verbatim>\<open>range\<close> walks a map in the order
  of its entries, and the subscription of scenario 1 with the rule of scenario 2.
\<close>

definition quietEnv :: env where
  "quietEnv =
     \<lparr>os_TempDir = ''/tmp'', path_Join = (\<lambda>dir name. dir @ ''/'' @ name),
      ioutil_WriteFile = (\<lambda>name bs. True), rangeAttributes = (\<lambda>m. m),
      rangeReplaces = (\<lambda>k m. m), StdinPipe = (\<lambda>k cmd args. True),
      stdin_Write = (\<lambda>k cmd args bs. Written),
      CombinedOutput = (\<lambda>k cmd args input. Succeeded)\<rparr>"

definition s1 :: subData where
  "s1 =
     \<lparr>Sub = ''s1'', Topic = ''t1'', sdCommand = [''echo'', ''GSUB_DATA''],
      PassDataVia = dataViaVar, Ifs = [stagingRule], Tests = []\<rparr>"

text \<open>
  A rule with the unanchored pattern \<^verbatim>\<open>staging\<close> and a message whose server only
  contains it; a rule on a key that the messages of the scenarios do not carry, with the
  pattern \<^verbatim>\<open>.*\<close>, and a subscription that has this rule.
\<close>

definition stagingSomewhere :: subIf where
  "stagingSomewhere =
     SubIf subIfFieldMetaKey ''server'' (Some (literal ''staging'')) [''deploy''] []"

definition secondStaging :: Message where
  "secondStaging = \<lparr>ID = ''3'', Data = [], Attributes = [(''server'', ''my-staging-2'')]\<rparr>"

definition anyRegion :: subIf where
  "anyRegion = SubIf subIfFieldMetaKey ''region'' (Some (Star AnyChar)) [''notify''] []"

definition regionSub :: subData where
  "regionSub =
     \<lparr>Sub = ''s2'', Topic = ''t2'', sdCommand = [], PassDataVia = dataViaNone,
      Ifs = [anyRegion], Tests = []\<rparr>"

text \<open>
  The commands of a message in the order of the spec: the root command when it is not
  empty, then the commands of the rules that fire, in the order of \<open>matched\<close> over the
  root-level rules in list order.
\<close>

definition commandsOf :: "subData \<Rightarrow> Message \<Rightarrow> subCommand list" where
  "commandsOf sd msg =
     (if empty (sdCommand sd) then [] else [sdCommand sd])
     @ map Command (concat (map (matched msg) (Ifs sd)))"

text \<open>No write to a pipe blocks and every command that is started exits.\<close>

definition neverBlocks :: "env \<Rightarrow> bool" where
  "neverBlocks e =
     ((\<forall>k cmd args bs. stdin_Write e k cmd args bs \<noteq> WriteBlocks)
      \<and> (\<forall>k cmd args input. CombinedOutput e k cmd args input \<noteq> NeverExits))"

text \<open>
  An environment in which the first command cannot open its pipe, the second cannot
  write to it and every command that is started fails; an environment in which a
  command that is given a standard input reads it to the end and so never exits; and a
  subscription that hands the payload to \<^verbatim>\<open>cat\<close> through the pipe.
\<close>

definition failingEnv :: env where
  "failingEnv =
     quietEnv\<lparr>StdinPipe := (\<lambda>k cmd args. k \<noteq> 0),
              stdin_Write := (\<lambda>k cmd args bs. if k = 1 then WriteError else Written),
              CombinedOutput := (\<lambda>k cmd args input. Failed)\<rparr>"



text \<open>The subscription of scenario 1 in the mode pipe, with a root command without arguments.\<close>

definition pipeSub :: subData where
  "pipeSub =
     \<lparr>Sub = ''s1'', Topic = ''t1'', sdCommand = [''notify''], PassDataVia = dataViaPipe,
      Ifs = [stagingRule], Tests = []\<rparr>"

subsection \<open>The rule tree\<close>

lemma no_panic:
  "compiled n \<Longrightarrow> snd (eval msg idx n) = False"
  "list_all compiled vs \<Longrightarrow> snd (evalThen msg idx i vs) = False"
  by (induction msg idx n and msg idx i vs rule: eval_evalThen.induct)
     (auto split: subIfField.splits option.splits prod.splits)










subsection \<open>Dispatch\<close>

lemma calls_simps [simp]:
  "calls [] = []"
  "calls (Enter index # t) = calls t"
  "calls (Call n index # t) = (n, index) # calls t"
  "calls (t @ t') = calls t @ calls t'"
  by (simp_all add: calls_def)

lemma perform_empty: "empty sc \<Longrightarrow> perform e k sc r p = (Some True, [])"
  by (simp add: perform_def)

lemma perform_one_event:
  "\<not> empty sc \<Longrightarrow> \<exists>ev. snd (perform e k sc r p) = [ev]"
  by (simp add: perform_def run_def Let_def split: writeResult.splits runResult.splits)

lemma perform_returns:
  "neverBlocks e \<Longrightarrow> fst (perform e k sc r p) \<noteq> None"
  by (auto simp: perform_def run_def Let_def neverBlocks_def split: writeResult.splits runResult.splits)

lemma performAll_Cons:
  "fst (perform e k sc r p) = None \<Longrightarrow>
     performAll e k (sc # cs) r p = (snd (perform e k sc r p), False)"
  "fst (perform e k sc r p) = Some b \<Longrightarrow>
     performAll e k (sc # cs) r p
       = (snd (perform e k sc r p) @ fst (performAll e (Suc k) cs r p),
          snd (performAll e (Suc k) cs r p))"
  by (cases "perform e k sc r p"; cases "performAll e (Suc k) cs r p"; simp)+

declare performAll.simps(2) [simp del]

lemma performAll_returns:
  "neverBlocks e \<Longrightarrow> snd (performAll e k cs r p)"
proof (induction cs arbitrary: k)
  case Nil
  then show ?case by simp
next
  case (Cons sc cs)
  obtain b where p: "fst (perform e k sc r p) = Some b"
    using perform_returns[OF Cons.prems, of k sc r p] by auto
  show ?case using Cons.IH[OF Cons.prems, of "Suc k"] by (simp add: performAll_Cons(2)[OF p])
qed

lemma performAll_all:
  "snd (performAll e k cs r p) \<Longrightarrow>
   fst (performAll e k cs r p)
     = concat (map (\<lambda>(i, sc). snd (perform e i sc r p)) (enumerate k cs))"
proof (induction cs arbitrary: k)
  case Nil
  then show ?case by simp
next
  case (Cons sc cs)
  show ?case
  proof (cases "fst (perform e k sc r p)")
    case None
    then show ?thesis using Cons.prems by (simp add: performAll_Cons(1))
  next
    case (Some b)
    have "snd (performAll e (Suc k) cs r p)"
      using Cons.prems by (simp add: performAll_Cons(2)[OF Some])
    from Cons.IH[OF this] show ?thesis by (simp add: performAll_Cons(2)[OF Some])
  qed
qed

lemma calls_matched:
  "compiled n \<Longrightarrow> map fst (calls (fst (eval msg idx n))) = matched msg n"
  "list_all compiled vs \<Longrightarrow> map fst (calls (fst (evalThen msg idx i vs))) = concat (map (matched msg) vs)"
proof (induction msg idx n and msg idx i vs rule: eval_evalThen.induct)
  case (1 msg index ft fn pat cmd thn)
  let ?n = "SubIf ft fn pat cmd thn"
  from "1.prems" obtain re where pat: "pat = Some re" and thn: "list_all compiled thn" by auto
  show ?case
  proof (cases "ft = subIfFieldMetaKey \<and> MatchString re (mapIndex (Attributes msg) fn)")
    case False
    then have nm: "\<not> nodeMatches msg ?n" by (auto simp: nodeMatches_def pat)
    from False have "fst (eval msg index ?n) = [Enter index]"
      by (cases ft) (auto simp: pat)
    then show ?thesis using nm by simp
  next
    case True
    then have nm: "nodeMatches msg ?n" by (auto simp: nodeMatches_def pat)
    have IH: "map fst (calls (fst (evalThen msg index 0 thn))) = concat (map (matched msg) thn)"
      using "1.IH"[OF _ pat _ thn] True by simp
    from True have "fst (eval msg index ?n) = Enter index # Call ?n index # fst (evalThen msg index 0 thn)"
      by (auto simp: pat split: prod.splits)
    then show ?thesis using nm IH by simp
  qed
next
  case (2 msg index i)
  show ?case by simp
next
  case (3 msg index i v vs)
  from "3.prems" have cv: "compiled v" and cvs: "list_all compiled vs" by auto
  obtain t where ev: "eval msg (index @ [i]) v = (t, False)"
    using no_panic(1)[OF cv, of msg "index @ [i]"] by (cases "eval msg (index @ [i]) v") auto
  have IH1: "map fst (calls t) = matched msg v"
    using "3.IH"(1)[OF cv] ev by simp
  have IH2: "map fst (calls (fst (evalThen msg index (Suc i) vs))) = concat (map (matched msg) vs)"
    using "3.IH"(2)[OF ev[symmetric] _ cvs] by simp
  have "fst (evalThen msg index i (v # vs)) = t @ fst (evalThen msg index (Suc i) vs)"
    using ev by (auto split: prod.splits)
  then show ?case using IH1 IH2 by simp
qed

lemma map_Command_calls:
  "map (\<lambda>(node, index). Command node) cs = map Command (map fst cs)"
  by (induction cs) auto

lemma dispatch_char:
  assumes "list_all compiled (Ifs sd)"
  shows "dispatch e sd msg =
     (fst (performAll e 0 (commandsOf sd msg) (commandReplaces e sd msg) (passBytesViaPipe sd msg)),
      if snd (performAll e 0 (commandsOf sd msg) (commandReplaces e sd msg)
                (passBytesViaPipe sd msg))
      then Returns True else Blocks)"
proof -
  obtain t p where ev: "evalThen msg [] 0 (Ifs sd) = (t, p)" by (cases "evalThen msg [] 0 (Ifs sd)")
  have p: "p = False" using no_panic(2)[OF assms, of msg "[]" 0] ev by simp
  have t: "map fst (calls t) = concat (map (matched msg) (Ifs sd))"
    using calls_matched(2)[OF assms, of msg "[]" 0] ev by simp
  have "Ifs sd = [] \<Longrightarrow> t = []" using ev by simp
  then have i: "(if length (Ifs sd) > 0 then evalThen msg [] 0 (Ifs sd) else ([], False)) = (t, False)"
    using ev p by auto
  have c: "(if \<not> empty (sdCommand sd) then [sdCommand sd] else [])
      @ map (\<lambda>(node, index). Command node) (calls t) = commandsOf sd msg"
    unfolding map_Command_calls t commandsOf_def by simp
  show ?thesis
    unfolding dispatch_def Let_def i prod.case c
    by (cases "performAll e 0 (commandsOf sd msg) (commandReplaces e sd msg) (passBytesViaPipe sd msg)")
       simp
qed

lemma receiveMessage_char:
  assumes "list_all compiled (Ifs sd)"
  shows "receiveMessage e sd msg =
     (if PassDataVia sd = dataViaFile \<and> \<not> ioutil_WriteFile e (dataFile e msg) (Data msg)
      then (Returns False, [WriteFileFailed (dataFile e msg)])
      else
        (if snd (performAll e 0 (commandsOf sd msg) (commandReplaces e sd msg)
                   (passBytesViaPipe sd msg))
         then Returns True else Blocks,
         (if PassDataVia sd = dataViaFile then [WroteFile (dataFile e msg) (Data msg)] else [])
         @ fst (performAll e 0 (commandsOf sd msg) (commandReplaces e sd msg)
                  (passBytesViaPipe sd msg))
         @ (if PassDataVia sd = dataViaFile
               \<and> snd (performAll e 0 (commandsOf sd msg) (commandReplaces e sd msg)
                         (passBytesViaPipe sd msg))
            then [RemovedFile (dataFile e msg)] else [])))"
  by (simp add: receiveMessage_def dispatch_char[OF assms])

lemma performAll_commandsOf:
  assumes "snd (performAll e 0 (commandsOf sd msg) r p)"
  shows "fst (performAll e 0 (commandsOf sd msg) r p)
            = (if empty (sdCommand sd) then [] else snd (perform e 0 (sdCommand sd) r p))
              @ concat (map (\<lambda>(k, n). snd (perform e k (Command n) r p))
                          (enumerate (if empty (sdCommand sd) then 0 else 1)
                             (concat (map (matched msg) (Ifs sd)))))"
proof -
  have e1: "map (\<lambda>(i, sc). snd (perform e i sc r p)) (enumerate m (map Command ns))
      = map (\<lambda>(k, n). snd (perform e k (Command n) r p)) (enumerate m ns)" for m ns
    by (induction ns arbitrary: m) auto
  show ?thesis
    unfolding performAll_all[OF assms]
    by (simp add: commandsOf_def enumerate_append_eq e1)
qed

text \<open>
  C4. The order of dispatch. For a subscription whose patterns all compiled, what
  receiveMessage does for one message is, in this order: in the mode file the write of
  the data file; the calls of perform, one after the other, for the root command when
  it is not empty and then for the command of every rule that fires, in the order of
  \<open>matched\<close> over the root-level rules in list order (a matched node before its
  children, the children in list order); in the mode file the removal of the data file,
  when all calls returned. Each command is performed with the same replacements and
  the same pipe bytes. When every call returns, this is what the call for the root
  command did, followed by what the calls for the rules did, in that order.
\<close>

theorem dispatch_order:
  assumes "list_all compiled (Ifs sd)"
  shows "snd (receiveMessage e sd msg) =
     (if PassDataVia sd = dataViaFile \<and> \<not> ioutil_WriteFile e (dataFile e msg) (Data msg)
      then [WriteFileFailed (dataFile e msg)]
      else
        (if PassDataVia sd = dataViaFile then [WroteFile (dataFile e msg) (Data msg)] else [])
        @ fst (performAll e 0
                 ((if empty (sdCommand sd) then [] else [sdCommand sd])
                  @ map Command (concat (map (matched msg) (Ifs sd))))
                 (commandReplaces e sd msg) (passBytesViaPipe sd msg))
        @ (if PassDataVia sd = dataViaFile
              \<and> snd (performAll e 0
                        ((if empty (sdCommand sd) then [] else [sdCommand sd])
                         @ map Command (concat (map (matched msg) (Ifs sd))))
                        (commandReplaces e sd msg) (passBytesViaPipe sd msg))
           then [RemovedFile (dataFile e msg)] else []))
   \<and> (snd (performAll e 0
              ((if empty (sdCommand sd) then [] else [sdCommand sd])
               @ map Command (concat (map (matched msg) (Ifs sd))))
              (commandReplaces e sd msg) (passBytesViaPipe sd msg))
        \<longrightarrow> fst (performAll e 0
                   ((if empty (sdCommand sd) then [] else [sdCommand sd])
                    @ map Command (concat (map (matched msg) (Ifs sd))))
                   (commandReplaces e sd msg) (passBytesViaPipe sd msg))
            = (if empty (sdCommand sd) then []
               else snd (perform e 0 (sdCommand sd) (commandReplaces e sd msg)
                           (passBytesViaPipe sd msg)))
              @ concat (map (\<lambda>(k, n). snd (perform e k (Command n) (commandReplaces e sd msg)
                                              (passBytesViaPipe sd msg)))
                          (enumerate (if empty (sdCommand sd) then 0 else 1)
                             (concat (map (matched msg) (Ifs sd))))))"
proof -
  have c: "(if empty (sdCommand sd) then [] else [sdCommand sd])
           @ map Command (concat (map (matched msg) (Ifs sd))) = commandsOf sd msg"
    by (simp add: commandsOf_def)
  show ?thesis
    unfolding c using performAll_commandsOf[of e sd msg]
    by (simp add: receiveMessage_char[OF assms])
qed

lemma performAll_Cons_eq:
  "performAll e k (sc # cs) r p =
     (if fst (perform e k sc r p) = None then (snd (perform e k sc r p), False)
      else (snd (perform e k sc r p) @ fst (performAll e (Suc k) cs r p),
            snd (performAll e (Suc k) cs r p)))"
  by (cases "fst (perform e k sc r p)") (simp_all add: performAll_Cons)


lemma dataFile_indep [simp]:
  "dataFile (e\<lparr>StdinPipe := a, stdin_Write := b, CombinedOutput := c\<rparr>) msg = dataFile e msg"
  by (simp add: dataFile_def)

lemma commandReplaces_indep [simp]:
  "commandReplaces (e\<lparr>StdinPipe := a, stdin_Write := b, CombinedOutput := c\<rparr>) sd msg = commandReplaces e sd msg"
  by (simp add: commandReplaces_def Let_def)

lemma receiveMessage_returns:
  assumes "list_all compiled (Ifs sd)" and "neverBlocks e"
  shows "fst (receiveMessage e sd msg)
           = Returns (\<not> (PassDataVia sd = dataViaFile
                         \<and> \<not> ioutil_WriteFile e (dataFile e msg) (Data msg)))"
  by (simp add: receiveMessage_char[OF assms(1)] performAll_returns[OF assms(2)])



text \<open>The scenarios, evaluated piece by piece.\<close>

lemma s1_fields:
  "Sub s1 = ''s1''" "sdCommand s1 = [''echo'', ''GSUB_DATA'']" "PassDataVia s1 = dataViaVar"
  "Ifs s1 = [stagingRule]" "Tests s1 = []"
  by (simp_all add: s1_def)


lemma stagingRule_compiled: "list_all compiled [stagingRule]"
  by code_simp

lemma TrimSpace_words:
  "TrimSpace ''echo'' = ''echo''" "TrimSpace ''notify'' = ''notify''"
  "TrimSpace ''deploy'' = ''deploy''" "TrimSpace ''A'' = ''A''" "TrimSpace ''cat'' = ''cat''"
  by code_simp+

lemma encode_hello: "EncodeToString ''hello'' = ''aGVsbG8=''"
  by (simp add: encodeStd_def)

lemma replaces_stagingFrontend:
  "commandReplaces quietEnv s1 stagingFrontend =
     [(''GSUB_SUB'', ''s1''), (''GSUB_TOPIC'', ''t1''), (''GSUB_META_server'', ''staging''),
      (''GSUB_META_app'', ''frontend''), (''GSUB_DATA'', ''aGVsbG8='')]"
  by (simp add: commandReplaces_def quietEnv_def s1_def stagingFrontend_def ReplaceAll_def
      encodeStd_def)

lemma perform_echo_stagingFrontend:
  "perform quietEnv 0 [''echo'', ''GSUB_DATA'']
     [(''GSUB_SUB'', ''s1''), (''GSUB_TOPIC'', ''t1''), (''GSUB_META_server'', ''staging''),
      (''GSUB_META_app'', ''frontend''), (''GSUB_DATA'', ''aGVsbG8='')] []
   = (Some True, [Ran ''echo'' [''aGVsbG8=''] None Succeeded])"
  by code_simp

lemma perform_no_arguments:
  assumes "TrimSpace c = c" and "c \<noteq> []"
  shows "perform e k [c] r p =
     (if length p > 0 then
        (if \<not> StdinPipe e k c [] then (Some False, [OpenPipeFailed c []])
         else case stdin_Write e k c [] (EncodeToString p) of
                WriteError \<Rightarrow> (Some False, [WritePipeFailed c []])
              | WriteBlocks \<Rightarrow> (None, [WritePipeBlocked c []])
              | Written \<Rightarrow> run e k c [] (Some (EncodeToString p)))
      else run e k c [] None)"
  using assms by (simp add: perform_def empty_def cmdArgs_def)

lemma matched_stagingFrontend:
  "matched stagingFrontend stagingRule =
     [stagingRule, SubIf subIfFieldMetaKey ''app'' (Some (anchored ''frontend'')) [''A''] []]"
  by code_simp

lemma matched_production: "matched production stagingRule = []"
  by code_simp

lemma Command_stagingRule: "Command stagingRule = [''deploy'']"
  by (simp add: stagingRule_def)

lemma commandsOf_s1: "commandsOf s1 stagingFrontend = [[''echo'', ''GSUB_DATA''], [''deploy''], [''A'']]"
  by (simp add: commandsOf_def s1_fields empty_def TrimSpace_words matched_stagingFrontend
      Command_stagingRule)


theorem dispatch_order_witness:
  "list_all compiled (Ifs s1)
   \<and> snd (receiveMessage quietEnv s1 stagingFrontend)
       = [Ran ''echo'' [''aGVsbG8=''] None Succeeded, Ran ''deploy'' [] None Succeeded,
          Ran ''A'' [] None Succeeded]"
proof -
  have h: "list_all compiled (Ifs s1)" using stagingRule_compiled by (simp add: s1_fields)
  have q: "CombinedOutput quietEnv = (\<lambda>k cmd args input. Succeeded)" by (simp add: quietEnv_def)
  have p: "performAll quietEnv 0 [[''echo'', ''GSUB_DATA''], [''deploy''], [''A'']]
      (commandReplaces quietEnv s1 stagingFrontend) []
     = ([Ran ''echo'' [''aGVsbG8=''] None Succeeded, Ran ''deploy'' [] None Succeeded,
         Ran ''A'' [] None Succeeded], True)"
    by (simp add: performAll_Cons_eq replaces_stagingFrontend perform_echo_stagingFrontend
        perform_no_arguments TrimSpace_words run_def q)
  have c: "(if empty (sdCommand s1) then [] else [sdCommand s1])
      @ map Command (concat (map (matched stagingFrontend) (Ifs s1)))
      = [[''echo'', ''GSUB_DATA''], [''deploy''], [''A'']]"
    using commandsOf_s1 by (simp add: commandsOf_def)
  show ?thesis
    using h dispatch_order [OF h, of quietEnv stagingFrontend]
    unfolding c by (simp add: p s1_fields passBytesViaPipe_def)
qed


lemma neverBlocks_examples: "neverBlocks quietEnv" "neverBlocks failingEnv"
  by (simp_all add: neverBlocks_def quietEnv_def failingEnv_def)

lemma replaces_pipeSub:
  "commandReplaces e pipeSub msg = commandReplaces e (pipeSub\<lparr>PassDataVia := dataViaNone\<rparr>) msg"
  by (simp add: commandReplaces_def pipeSub_def)




subsection \<open>Patterns\<close>

lemma closure_invariant:
  assumes "\<And>p q. P p \<Longrightarrow> q \<in> set (step p) \<Longrightarrow> P q"
  shows "(\<forall>p\<in>set ps. P p) \<Longrightarrow> q \<in> set (closure step k ps) \<Longrightarrow> P q"
proof (induction k arbitrary: ps)
  case 0
  then show ?case by simp
next
  case (Suc k)
  have "\<forall>p\<in>set (remdups (ps @ concat (map step ps))). P p"
    using Suc.prems(1) assms by auto
  moreover have "q \<in> set (closure step k (remdups (ps @ concat (map step ps))))"
    using Suc.prems(2) by simp
  ultimately show ?case by (rule Suc.IH)
qed

lemma ends_bounds:
  "i \<le> length s \<Longrightarrow> j \<in> set (ends re s i) \<Longrightarrow> i \<le> j \<and> j \<le> length s"
proof (induction re arbitrary: i j)
  case (Lit c)
  then show ?case by (simp split: if_splits)
next
  case AnyChar
  then show ?case by (simp split: if_splits)
next
  case BeginText
  then show ?case by (simp split: if_splits)
next
  case EndText
  then show ?case by (simp split: if_splits)
next
  case EmptyMatch
  then show ?case by simp
next
  case (Cat a b)
  from Cat.prems(2) obtain k where k: "k \<in> set (ends a s i)" and j: "j \<in> set (ends b s k)"
    by auto
  from Cat.IH(1)[OF Cat.prems(1) k] have ik: "i \<le> k" and ks: "k \<le> length s" by auto
  from Cat.IH(2)[OF ks j] ik show ?case by simp
next
  case (Alt a b)
  from Alt.prems(2) have "j \<in> set (ends a s i) \<or> j \<in> set (ends b s i)" by simp
  then show ?case using Alt.IH(1)[OF Alt.prems(1)] Alt.IH(2)[OF Alt.prems(1)] by blast
next
  case (Star a)
  have step: "\<And>p q. i \<le> p \<and> p \<le> length s \<Longrightarrow> q \<in> set (ends a s p) \<Longrightarrow> i \<le> q \<and> q \<le> length s"
  proof -
    fix p q assume p: "i \<le> p \<and> p \<le> length s" and q: "q \<in> set (ends a s p)"
    from p have "p \<le> length s" by simp
    from Star.IH[OF this q] p show "i \<le> q \<and> q \<le> length s" by simp
  qed
  have init: "\<forall>p\<in>set [i]. i \<le> p \<and> p \<le> length s" using Star.prems(1) by simp
  have mem: "j \<in> set (closure (ends a s) (Suc (length s)) [i])" using Star.prems(2) by simp
  show ?case
    by (rule closure_invariant[where P = "\<lambda>p. i \<le> p \<and> p \<le> length s", OF step init mem])
qed

lemma MatchString_iff:
  "MatchString re s = (\<exists>i j. i \<le> j \<and> j \<le> length s \<and> j \<in> set (ends re s i))"
proof
  assume "MatchString re s"
  then obtain i where "i \<in> set [0..<Suc (length s)]" and ne: "ends re s i \<noteq> []"
    unfolding MatchString_def list_ex_iff by blast
  then have i: "i \<le> length s" by auto
  from ne obtain j where j: "j \<in> set (ends re s i)" by (cases "ends re s i") auto
  with ends_bounds[OF i j] show "\<exists>i j. i \<le> j \<and> j \<le> length s \<and> j \<in> set (ends re s i)" by blast
next
  assume "\<exists>i j. i \<le> j \<and> j \<le> length s \<and> j \<in> set (ends re s i)"
  then obtain i j where "i \<le> j" "j \<le> length s" and j: "j \<in> set (ends re s i)" by blast
  then have "i \<in> set [0..<Suc (length s)]" by auto
  moreover from j have "ends re s i \<noteq> []" by auto
  ultimately show "MatchString re s" unfolding MatchString_def list_ex_iff by blast
qed

lemma eval_node:
  "fst (eval msg index n) =
     (if nodeMatches msg n then Enter index # Call n index # fst (evalThen msg index 0 (Then n))
      else [Enter index])"
  by (cases n) (auto simp: nodeMatches_def split: subIfField.splits option.splits prod.splits)

text \<open>
  C8. Unanchored search. For a node on a metadata key with a compiled pattern \<open>re\<close>,
  eval invokes the callback for the node exactly when \<open>re\<close> matches the value of the key
  between some positions \<open>i \<le> j\<close> of the value (the anchors \<^verbatim>\<open>^\<close> and \<^verbatim>\<open>$\<close> refer to
  the ends of the whole value); otherwise it only enters the node. A match of the whole
  value is one case of it.
\<close>

theorem unanchored_search:
  assumes "FieldType n = subIfFieldMetaKey" and "Pattern n = Some re"
  shows "((\<exists>t. fst (eval msg index n) = Enter index # Call n index # t)
            = (\<exists>i j. i \<le> j \<and> j \<le> length (mapIndex (Attributes msg) (FieldName n))
                  \<and> j \<in> set (ends re (mapIndex (Attributes msg) (FieldName n)) i)))
       \<and> (fst (eval msg index n) = [Enter index]
            \<or> (\<exists>t. fst (eval msg index n) = Enter index # Call n index # t))
       \<and> (length (mapIndex (Attributes msg) (FieldName n))
              \<in> set (ends re (mapIndex (Attributes msg) (FieldName n)) 0)
            \<longrightarrow> (\<exists>t. fst (eval msg index n) = Enter index # Call n index # t))"
proof -
  have nm: "nodeMatches msg n
      = (\<exists>i j. i \<le> j \<and> j \<le> length (mapIndex (Attributes msg) (FieldName n))
                  \<and> j \<in> set (ends re (mapIndex (Attributes msg) (FieldName n)) i))"
    using assms by (simp add: nodeMatches_def MatchString_iff)
  have 1: "(\<exists>t. fst (eval msg index n) = Enter index # Call n index # t) = nodeMatches msg n"
    by (simp add: eval_node)
  have 2: "fst (eval msg index n) = [Enter index]
            \<or> (\<exists>t. fst (eval msg index n) = Enter index # Call n index # t)"
    by (simp add: eval_node)
  have 3: "length (mapIndex (Attributes msg) (FieldName n))
              \<in> set (ends re (mapIndex (Attributes msg) (FieldName n)) 0)
            \<longrightarrow> nodeMatches msg n"
    unfolding nm by blast
  show ?thesis using 1 2 3 nm by simp
qed

theorem unanchored_search_witness:
  "FieldType stagingSomewhere = subIfFieldMetaKey
   \<and> Pattern stagingSomewhere = Some (literal ''staging'')
   \<and> mapIndex (Attributes secondStaging) (FieldName stagingSomewhere) = ''my-staging-2''
   \<and> 10 \<in> set (ends (literal ''staging'') ''my-staging-2'' 3)
   \<and> length ''my-staging-2'' \<notin> set (ends (literal ''staging'') ''my-staging-2'' 0)
   \<and> (\<exists>t. fst (eval secondStaging [0] stagingSomewhere)
            = Enter [0] # Call stagingSomewhere [0] # t)"
proof -
  have h: "FieldType stagingSomewhere = subIfFieldMetaKey"
    "Pattern stagingSomewhere = Some (literal ''staging'')"
    by (simp_all add: stagingSomewhere_def)
  have v: "mapIndex (Attributes secondStaging) (FieldName stagingSomewhere) = ''my-staging-2''"
    by (simp add: stagingSomewhere_def secondStaging_def mapIndex_def)
  have a: "10 \<in> set (ends (literal ''staging'') ''my-staging-2'' 3)"
    by code_simp
  have b: "length ''my-staging-2'' \<notin> set (ends (literal ''staging'') ''my-staging-2'' 0)"
    by code_simp
  have "(3::nat) \<le> 10 \<and> 10 \<le> length ''my-staging-2''
      \<and> 10 \<in> set (ends (literal ''staging'') ''my-staging-2'' 3)"
    using a by simp
  then have c: "\<exists>i j. i \<le> j \<and> j \<le> length ''my-staging-2''
      \<and> j \<in> set (ends (literal ''staging'') ''my-staging-2'' i)"
    by blast
  have "\<exists>t. fst (eval secondStaging [0] stagingSomewhere)
            = Enter [0] # Call stagingSomewhere [0] # t"
    using unanchored_search [OF h, of secondStaging "[0]"] c unfolding v by blast
  then show ?thesis using h v a b by blast
qed

lemma enumerate_split:
  "x \<in> set xs \<Longrightarrow> \<exists>ys zs k. enumerate m xs = ys @ (k, x) # zs"
proof -
  assume "x \<in> set xs"
  then obtain as bs where "xs = as @ x # bs" by (auto dest: split_list)
  then have "enumerate m xs = enumerate m as @ (m + length as, x) # enumerate (Suc (m + length as)) bs"
    by (simp add: enumerate_append_eq)
  then show ?thesis by blast
qed

lemma matched_self: "nodeMatches msg n \<Longrightarrow> n \<in> set (matched msg n)"
  by (cases n) auto

text \<open>
  C10. A missing attribute. For a node on a metadata key with a compiled pattern \<open>re\<close>
  and a message without that key, the value that is tested is the empty string: eval
  invokes the callback exactly when \<open>re\<close> matches the empty string, and then
  receiveMessage, when it returns true for a subscription (all patterns compiled) with
  this node at root level, has performed the node's command. The patterns \<^verbatim>\<open>.*\<close> and
  \<^verbatim>\<open>^$\<close> match the empty string.
\<close>

theorem absent_attribute:
  assumes "FieldType n = subIfFieldMetaKey" and "Pattern n = Some re"
    and "map_of (Attributes msg) (FieldName n) = None"
  shows "mapIndex (Attributes msg) (FieldName n) = []
       \<and> (MatchString re []
            \<longrightarrow> (\<exists>t. fst (eval msg index n) = Enter index # Call n index # t))
       \<and> (\<not> MatchString re [] \<longrightarrow> fst (eval msg index n) = [Enter index])
       \<and> (MatchString re [] \<and> list_all compiled (Ifs sd) \<and> n \<in> set (Ifs sd)
            \<and> fst (receiveMessage e sd msg) = Returns True
            \<longrightarrow> (\<exists>before after k. snd (receiveMessage e sd msg)
                   = before @ snd (perform e k (Command n) (commandReplaces e sd msg)
                                     (passBytesViaPipe sd msg)) @ after))
       \<and> MatchString (Star AnyChar) [] \<and> MatchString (Cat BeginText EndText) []"
proof -
  have v: "mapIndex (Attributes msg) (FieldName n) = []"
    using assms(3) by (simp add: mapIndex_def)
  have nm: "nodeMatches msg n = MatchString re []"
    using assms(1,2) v by (simp add: nodeMatches_def)
  have 2: "MatchString re []
            \<longrightarrow> (\<exists>t. fst (eval msg index n) = Enter index # Call n index # t)"
    by (simp add: eval_node nm)
  have 3: "\<not> MatchString re [] \<longrightarrow> fst (eval msg index n) = [Enter index]"
    by (simp add: eval_node nm)
  have 4: "\<exists>before after k. snd (receiveMessage e sd msg)
                   = before @ snd (perform e k (Command n) (commandReplaces e sd msg)
                                     (passBytesViaPipe sd msg)) @ after"
    if m: "MatchString re []" and c: "list_all compiled (Ifs sd)" and n: "n \<in> set (Ifs sd)"
      and r: "fst (receiveMessage e sd msg) = Returns True"
  proof -
    let ?R = "commandReplaces e sd msg" and ?P = "passBytesViaPipe sd msg"
    let ?f = "\<lambda>(i, sc). snd (perform e i sc ?R ?P)"
    have "n \<in> set (concat (map (matched msg) (Ifs sd)))"
      using matched_self[of msg n] m nm n by auto
    then have "Command n \<in> set (commandsOf sd msg)" by (simp add: commandsOf_def)
    then obtain ys zs k where xy: "enumerate 0 (commandsOf sd msg) = ys @ (k, Command n) # zs"
      using enumerate_split by fastforce
    have w: "\<not> (PassDataVia sd = dataViaFile \<and> \<not> ioutil_WriteFile e (dataFile e msg) (Data msg))"
      and ret: "snd (performAll e 0 (commandsOf sd msg) ?R ?P)"
      using r by (auto simp: receiveMessage_char[OF c] split: if_splits)
    have "snd (receiveMessage e sd msg) =
        ((if PassDataVia sd = dataViaFile then [WroteFile (dataFile e msg) (Data msg)] else [])
         @ concat (map ?f ys))
        @ snd (perform e k (Command n) ?R ?P)
        @ (concat (map ?f zs)
           @ (if PassDataVia sd = dataViaFile then [RemovedFile (dataFile e msg)] else []))"
      using w ret by (simp add: receiveMessage_char[OF c] performAll_all[OF ret] xy)
    then show ?thesis by blast
  qed
  have 5: "MatchString (Star AnyChar) []" by code_simp
  have 6: "MatchString (Cat BeginText EndText) []" by code_simp
  show ?thesis using v 2 3 4 5 6 by blast
qed

theorem absent_attribute_witness:
  "FieldType anyRegion = subIfFieldMetaKey \<and> Pattern anyRegion = Some (Star AnyChar)
   \<and> map_of (Attributes stagingFrontend) (FieldName anyRegion) = None
   \<and> MatchString (Star AnyChar) [] \<and> list_all compiled (Ifs regionSub)
   \<and> anyRegion \<in> set (Ifs regionSub)
   \<and> fst (receiveMessage quietEnv regionSub stagingFrontend) = Returns True
   \<and> (\<exists>t. fst (eval stagingFrontend [0] anyRegion) = Enter [0] # Call anyRegion [0] # t)
   \<and> (\<exists>before after k. snd (receiveMessage quietEnv regionSub stagingFrontend)
          = before @ snd (perform quietEnv k (Command anyRegion)
                            (commandReplaces quietEnv regionSub stagingFrontend)
                            (passBytesViaPipe regionSub stagingFrontend)) @ after)"
proof -
  have h: "FieldType anyRegion = subIfFieldMetaKey" "Pattern anyRegion = Some (Star AnyChar)"
    "map_of (Attributes stagingFrontend) (FieldName anyRegion) = None"
    by (simp_all add: anyRegion_def stagingFrontend_def)
  have c: "list_all compiled (Ifs regionSub)" "anyRegion \<in> set (Ifs regionSub)"
    by (simp_all add: regionSub_def anyRegion_def)
  have r: "fst (receiveMessage quietEnv regionSub stagingFrontend) = Returns True"
    unfolding receiveMessage_returns [OF c(1) neverBlocks_examples(1)]
    by (simp add: regionSub_def)
  show ?thesis
    using h c r
      absent_attribute [OF h, of "[0]" regionSub quietEnv]
    by blast
qed

end
